theory Spec2Isabelle
  imports Main "HOL-Library.Word" "HOL-Library.Signed_Division"
begin

section \<open>Machine integers\<close>

text \<open>
  The sources compute with the C++ type \<open>int\<close>, taken here as a 32-bit two's complement
  word: \<open>+\<close>, \<open>-\<close> and \<open>*\<close> wrap around, \<open>sint\<close> reads the signed value and \<open><s\<close> is
  the signed comparison. Signed overflow is undefined behaviour in C++; the model gives it
  the wrap-around value that the usual targets produce, and every statement below that needs
  the absence of overflow says so through an explicit bound.
\<close>

type_synonym int32 = "32 word"

text \<open>Division of two \<open>int\<close>s in C++ truncates towards zero.\<close>

definition int_div :: "int32 \<Rightarrow> int32 \<Rightarrow> int32" where
  "int_div a b = word_of_int (sint a sdiv sint b)"

section \<open>PackedIndex\<close>

text \<open>
  \<^verbatim>\<open>static int const computeOffset(int order) { return order*(order+1)/2; }\<close>
  \<^verbatim>\<open>static int const computeIndex(int x, int y) { return computeOffset(x+y) + x; }\<close>
\<close>

definition computeOffset :: "int32 \<Rightarrow> int32" where
  "computeOffset order = int_div (order * (order + 1)) 2"

definition computeIndex :: "int32 \<Rightarrow> int32 \<Rightarrow> int32" where
  "computeIndex x y = computeOffset (x + y) + x"

text \<open>The four private members \<open>_n\<close>, \<open>_i\<close>, \<open>_x\<close>, \<open>_y\<close> of the class.\<close>

record PackedIndex =
  m_n :: int32
  m_i :: int32
  m_x :: int32
  m_y :: int32

text \<open>
  \<^verbatim>\<open>PackedIndex & operator++() {
      ++_i;
      if (--_y < 0) { _x = 0; _y = ++_n; } else { ++_x; }
      return *this;
  }\<close>
\<close>

definition operator_increment :: "PackedIndex \<Rightarrow> PackedIndex" where
  "operator_increment p =
     (let i' = m_i p + 1;
          y' = m_y p - 1
      in if y' <s 0
         then (let n' = m_n p + 1 in \<lparr>m_n = n', m_i = i', m_x = 0, m_y = n'\<rparr>)
         else \<lparr>m_n = m_n p, m_i = i', m_x = m_x p + 1, m_y = y'\<rparr>)"

definition getOrder :: "PackedIndex \<Rightarrow> int32" where
  "getOrder p = m_n p"

definition getX :: "PackedIndex \<Rightarrow> int32" where
  "getX p = m_x p"

definition getY :: "PackedIndex \<Rightarrow> int32" where
  "getY p = m_y p"

definition getIndex :: "PackedIndex \<Rightarrow> int32" where
  "getIndex p = m_i p"

text \<open>The default constructor and the constructor from a pair \<open>(x, y)\<close>.\<close>

definition PackedIndex_default :: PackedIndex where
  "PackedIndex_default = \<lparr>m_n = 0, m_i = 0, m_x = 0, m_y = 0\<rparr>"

definition PackedIndex_xy :: "int32 \<Rightarrow> int32 \<Rightarrow> PackedIndex" where
  "PackedIndex_xy x y = \<lparr>m_n = x + y, m_i = computeOffset (x + y) + x, m_x = x, m_y = y\<rparr>"

text \<open>
  The states reachable from a constructor by \<open>operator++\<close> while the order stays at most
  \<open>N\<close>: the default constructor, the constructor at non-negative \<open>x\<close> and \<open>y\<close> of order
  at most \<open>N\<close>, and every increment whose result still has order at most \<open>N\<close>. With
  \<open>N = 2147483647\<close>, the largest \<open>int\<close>, the bound on the increments is no restriction.
\<close>

inductive reachable_upto :: "int \<Rightarrow> PackedIndex \<Rightarrow> bool" for N :: int where
  from_default: "0 \<le> N \<Longrightarrow> reachable_upto N PackedIndex_default"
| from_xy: "0 \<le> sint x \<Longrightarrow> 0 \<le> sint y \<Longrightarrow> sint x + sint y \<le> N
     \<Longrightarrow> reachable_upto N (PackedIndex_xy x y)"
| advance: "reachable_upto N p \<Longrightarrow> sint (getOrder (operator_increment p)) \<le> N
     \<Longrightarrow> reachable_upto N (operator_increment p)"

code_pred reachable_upto .

text \<open>
  Two notions of the proofs, not of the program: the triangular number \<open>n (n + 1) / 2\<close>
  and the state that stands at the pair \<open>(x, n - x)\<close> of order \<open>n\<close>.
\<close>

definition triangular :: "nat \<Rightarrow> nat" where
  "triangular n = n * (n + 1) div 2"

definition packed_state :: "nat \<Rightarrow> nat \<Rightarrow> PackedIndex" where
  "packed_state n x =
     \<lparr>m_n = of_nat n, m_i = of_nat (triangular n + x), m_x = of_nat x, m_y = of_nat (n - x)\<rparr>"

section \<open>HermiteEvaluator\<close>

text \<open>
  The element type \<open>Pixel\<close> of the arrays is a type parameter: only its operations occur,
  and nothing is assumed about them. An array is the list of its elements.
\<close>

datatype error = PreconditionFailure | InvalidOrder

record 'a HermiteEvaluator =
  e_xWorkspace :: "'a list"
  e_yWorkspace :: "'a list"

text \<open>The size of a one-dimensional array, as the \<open>int\<close> that \<open>getSize<0>()\<close> returns.\<close>

definition getSize :: "'a list \<Rightarrow> int32" where
  "getSize a = of_nat (length a)"

text \<open>\<^verbatim>\<open>int getOrder() const { return _xWorkspace.getSize<0>() - 1; }\<close>\<close>

definition HermiteEvaluator_getOrder :: "'a HermiteEvaluator \<Rightarrow> int32" where
  "HermiteEvaluator_getOrder ev = getSize (e_xWorkspace ev) - 1"

text \<open>
  Modelled from the spec: the number of pairs of order at most \<open>N\<close>, \<open>(N+1)(N+2)/2\<close>; the
  function of the repository that computes it is not among the sources.
\<close>

definition packedSize :: "int \<Rightarrow> int" where
  "packedSize N = (N + 1) * (N + 2) div 2"

text \<open>
  Modelled from the spec: the constructor \<open>HermiteEvaluator(order)\<close>, whose body is not among
  the sources. It reports a negative order and otherwise allocates both axis workspaces with
  \<open>order + 1\<close> elements. The content of a fresh workspace is written as \<open>0\<close>; no statement
  depends on it.
\<close>

definition HermiteEvaluator_new :: "int32 \<Rightarrow> error + ('a::zero) HermiteEvaluator" where
  "HermiteEvaluator_new order =
     (if order <s 0 then Inl InvalidOrder
      else Inr \<lparr>e_xWorkspace = replicate (nat (sint order) + 1) 0,
                e_yWorkspace = replicate (nat (sint order) + 1) 0\<rparr>)"

text \<open>
  Modelled from the spec: \<open>weaveFill\<close>, whose body is not among the sources. The entry of
  the target at flat index \<open>k\<close> becomes the product of the two axis values at the \<open>k\<close>-th
  pair of the packed sequence.
\<close>

definition weaveFill :: "('a::times) HermiteEvaluator \<Rightarrow> 'a list \<Rightarrow> 'a list" where
  "weaveFill ev target =
     map (\<lambda>k. let i = (operator_increment ^^ k) PackedIndex_default
              in e_xWorkspace ev ! nat (sint (getX i)) * e_yWorkspace ev ! nat (sint (getY i)))
         [0..<length target]"

text \<open>
  Modelled from the spec: \<open>fillEvaluation(target, x, y)\<close>, whose body is not among the
  sources. A target whose length is not the packed size of the evaluator's order is a
  precondition failure; otherwise both workspaces are filled with the one-dimensional values
  \<open>h x 0, \<dots>, h x N\<close> and \<open>h y 0, \<dots>, h y N\<close> and woven into the target. The spec does not
  give the closed forms of the one-dimensional functions, so \<open>h\<close> is a parameter. The result
  is the evaluator with its workspaces and the target after the call.
\<close>

definition fillEvaluation ::
  "('a \<Rightarrow> nat \<Rightarrow> 'a) \<Rightarrow> ('a::times) HermiteEvaluator \<Rightarrow> 'a list \<Rightarrow> 'a \<Rightarrow> 'a
     \<Rightarrow> error + ('a HermiteEvaluator \<times> 'a list)" where
  "fillEvaluation h ev target x y =
     (if int (length target) \<noteq> packedSize (sint (HermiteEvaluator_getOrder ev))
      then Inl PreconditionFailure
      else (let ev' = \<lparr>e_xWorkspace = map (h x) [0..<length (e_xWorkspace ev)],
                         e_yWorkspace = map (h y) [0..<length (e_yWorkspace ev)]\<rparr>
            in Inr (ev', weaveFill ev' target)))"

section \<open>ModelBuilder\<close>

text \<open>
  The members \<open>_order\<close>, \<open>_model\<close>, \<open>_x\<close> and \<open>_y\<close> of the class. The design matrix
  \<open>_model\<close> has the flattened pixels in rows and the basis functions in columns, and is the
  list of its rows.
\<close>

record 'a ModelBuilder =
  b_order :: int32
  b_model :: "'a list list"
  b_x :: "'a list"
  b_y :: "'a list"

text \<open>\<^verbatim>\<open>ndarray::Array<Pixel const,2,-2> getModel() const { return _model; }\<close>\<close>

definition getModel :: "'a ModelBuilder \<Rightarrow> 'a list list" where
  "getModel mb = b_model mb"

text \<open>
  The shape that the class keeps: one row of the design matrix for each pixel, each with the
  packed size of the builder's order as its length.
\<close>

definition ModelBuilder_shaped :: "'a ModelBuilder \<Rightarrow> bool" where
  "ModelBuilder_shaped mb \<longleftrightarrow>
     0 \<le> sint (b_order mb) \<and> length (b_y mb) = length (b_x mb) \<and>
     length (b_model mb) = length (b_x mb) \<and>
     (\<forall>row \<in> set (b_model mb). int (length row) = packedSize (sint (b_order mb)))"

text \<open>
  Modelled from the spec: \<open>addModelMatrix(order, output)\<close>, whose body is not among the
  sources. An order outside the builder's capacity or an output that is not of shape pixels
  by packed size is a precondition failure; otherwise the first \<open>packedSize order\<close> columns of
  the design matrix are added to the output, entry by entry.
\<close>

definition addModelMatrix ::
  "('a::plus) ModelBuilder \<Rightarrow> int32 \<Rightarrow> 'a list list \<Rightarrow> error + 'a list list" where
  "addModelMatrix mb order output =
     (if order <s 0 \<or> b_order mb <s order then Inl PreconditionFailure
      else if length output \<noteq> length (b_x mb)
              \<or> (\<exists>row \<in> set output. int (length row) \<noteq> packedSize (sint order))
      then Inl PreconditionFailure
      else Inr (map2 (\<lambda>orow mrow. map2 (+) orow (take (nat (packedSize (sint order))) mrow))
                     output (getModel mb)))"

section \<open>Reading words as numbers\<close>

lemma sint_of_nat32:
  assumes "n < 2147483648"
  shows "sint (of_nat n :: int32) = int n"
proof -
  have "sint (word_of_int (int n) :: int32) = signed_take_bit (LENGTH(32) - 1) (int n)"
    by (rule sint_sbintrunc')
  also have "\<dots> = int n"
    by (rule signed_take_bit_int_eq_self) (use assms in simp_all)
  finally show ?thesis by simp
qed

lemma of_nat_nat_sint:
  assumes "0 \<le> sint (w :: int32)"
  shows "w = of_nat (nat (sint w))"
proof -
  have "(of_nat (nat (sint w)) :: int32) = word_of_int (int (nat (sint w)))" by simp
  also have "\<dots> = word_of_int (sint w)" using assms by simp
  finally show ?thesis by simp
qed

lemma sint_plus_one:
  assumes "sint (w :: int32) < 2147483647"
  shows "sint (w + 1) = sint w + 1"
  using assms sint_ge [of w] by (simp add: sint_word_ariths signed_take_bit_int_eq_self)

section \<open>Triangular numbers\<close>

lemma triangular_Suc: "triangular (Suc n) = triangular n + n + 1"
  unfolding triangular_def by (induction n) auto

lemma triangular_mono: "m \<le> n \<Longrightarrow> triangular m \<le> triangular n"
  unfolding triangular_def by (intro div_le_mono mult_le_mono) auto

lemma triangular_Suc_eq: "triangular (Suc N) = (N + 1) * (N + 2) div 2"
  by (simp add: triangular_def)

lemma product_bound:
  assumes "(n::nat) \<le> 46340"
  shows "n * (n + 1) < 2147483648"
proof -
  have "n * (n + 1) \<le> 46340 * (46340 + 1)"
    using assms by (intro mult_le_mono) simp_all
  then show ?thesis by simp
qed

lemma triangular_bound_65535: "N \<le> 65534 \<Longrightarrow> triangular (Suc N) \<le> 2147450880"
proof -
  assume "N \<le> 65534"
  then have "triangular (Suc N) \<le> triangular 65535" by (intro triangular_mono) simp
  then show ?thesis by (simp add: triangular_def)
qed

lemma triangular_row_bound: "x \<le> n \<Longrightarrow> n \<le> N \<Longrightarrow> triangular n + x < triangular (Suc N)"
proof -
  assume "x \<le> n" "n \<le> N"
  then have "triangular n + x < triangular (Suc n)" by (simp add: triangular_Suc)
  also have "\<dots> \<le> triangular (Suc N)" using \<open>n \<le> N\<close> by (intro triangular_mono) simp
  finally show ?thesis .
qed

text \<open>Every number below a triangular number lies in exactly one row of the triangle.\<close>

lemma triangular_decompose:
  "k < triangular (Suc N) \<Longrightarrow> \<exists>n x. n \<le> N \<and> x \<le> n \<and> k = triangular n + x"
proof (induction N)
  case 0
  then show ?case by (simp add: triangular_def)
next
  case (Suc N)
  show ?case
  proof (cases "k < triangular (Suc N)")
    case True
    then obtain n x where "n \<le> N" "x \<le> n" "k = triangular n + x" using Suc.IH by blast
    then show ?thesis by (intro exI [of _ n] exI [of _ x]) simp
  next
    case False
    then have "triangular (Suc N) \<le> k" by simp
    moreover have "k < triangular (Suc N) + Suc N + 1"
      using Suc.prems by (simp add: triangular_Suc)
    ultimately have "k - triangular (Suc N) \<le> Suc N"
      and "k = triangular (Suc N) + (k - triangular (Suc N))" by simp_all
    then show ?thesis
      by (intro exI [of _ "Suc N"] exI [of _ "k - triangular (Suc N)"]) simp
  qed
qed

section \<open>The packed sequence\<close>

text \<open>Below order 46341 the product in \<open>computeOffset\<close> does not overflow.\<close>

lemma computeOffset_of_nat:
  assumes "n \<le> 46340"
  shows "computeOffset (of_nat n) = of_nat (triangular n)"
proof -
  have "(of_nat n :: int32) * (of_nat n + 1) = of_nat (n * (n + 1))"
    by (simp add: algebra_simps)
  moreover have "sint (of_nat (n * (n + 1)) :: int32) = int (n * (n + 1))"
    using product_bound [OF assms] by (rule sint_of_nat32)
  moreover have "int (n * (n + 1)) sdiv 2 = int (n * (n + 1) div 2)"
    by (simp add: signed_divide_int_def sgn_if zdiv_int)
  ultimately show ?thesis
    by (simp add: computeOffset_def int_div_def triangular_def)
qed

text \<open>One increment at the end of a row, and one inside a row.\<close>

lemma increment_end_of_row:
  "n + 1 < 2147483648 \<Longrightarrow> operator_increment (packed_state n n) = packed_state (Suc n) 0"
  by (simp add: operator_increment_def packed_state_def Let_def triangular_Suc word_sless_alt)

lemma increment_in_row:
  assumes "x < n" "n < 2147483648"
  shows "operator_increment (packed_state n x) = packed_state n (Suc x)"
proof -
  have "(of_nat (n - x) :: int32) - 1 = of_nat (n - Suc x)"
    using assms by simp
  moreover have "sint (of_nat (n - Suc x) :: int32) = int (n - Suc x)"
    using assms by (intro sint_of_nat32) simp
  ultimately show ?thesis
    by (simp add: operator_increment_def packed_state_def Let_def word_sless_alt)
qed

text \<open>
  The state after \<open>n (n + 1) / 2 + x\<close> increments from the origin, as long as the order
  is an \<open>int\<close>; the flat index is the number of increments modulo \<open>2 ^ 32\<close>.
\<close>

lemma increments_from_origin:
  "n < 2147483648 \<Longrightarrow> x \<le> n \<Longrightarrow>
     (operator_increment ^^ (triangular n + x)) PackedIndex_default = packed_state n x"
proof (induction n arbitrary: x)
  case 0
  then show ?case by (simp add: triangular_def packed_state_def PackedIndex_default_def)
next
  case (Suc n)
  have n: "n < 2147483648" and n1: "n + 1 < 2147483648" using Suc.prems(1) by simp_all
  have row: "x \<le> Suc n \<Longrightarrow>
      (operator_increment ^^ (triangular (Suc n) + x)) PackedIndex_default
        = packed_state (Suc n) x" for x
  proof (induction x)
    case 0
    have "triangular (Suc n) + 0 = Suc (triangular n + n)" by (simp add: triangular_Suc)
    then show ?case using Suc.IH [OF n, of n] increment_end_of_row [OF n1] by simp
  next
    case (Suc x)
    then have "(operator_increment ^^ (triangular (Suc n) + x)) PackedIndex_default
        = packed_state (Suc n) x"
      by simp
    moreover have "operator_increment (packed_state (Suc n) x) = packed_state (Suc n) (Suc x)"
      using Suc.prems n1 by (intro increment_in_row) simp_all
    ultimately show ?case by simp
  qed
  show ?case using Suc.prems(2) by (rule row)
qed

text \<open>
  What the getters read at such a state: the pair and the order as long as the order is an
  \<open>int\<close>, the flat index up to order 65534, and \<open>computeIndex\<close> up to order 46340.
\<close>

lemma packed_state_position:
  assumes "x \<le> n" "n < 2147483648"
  shows "sint (getX (packed_state n x)) = int x"
    and "sint (getY (packed_state n x)) = int (n - x)"
    and "sint (getOrder (packed_state n x)) = int n"
proof -
  show "sint (getX (packed_state n x)) = int x"
    using assms by (simp add: getX_def packed_state_def sint_of_nat32)
  show "sint (getY (packed_state n x)) = int (n - x)"
    using assms sint_of_nat32 [of "n - x"]
    by (simp add: getY_def packed_state_def del: of_nat_diff)
  show "sint (getOrder (packed_state n x)) = int n"
    using assms by (simp add: getOrder_def packed_state_def sint_of_nat32)
qed

lemma packed_state_index:
  assumes "x \<le> n" "n \<le> 65534"
  shows "sint (getIndex (packed_state n x)) = int (triangular n + x)"
proof -
  have "triangular n + x < triangular (Suc n)" using assms(1) by (simp add: triangular_Suc)
  also have "\<dots> \<le> 2147450880" using assms(2) by (rule triangular_bound_65535)
  finally have "triangular n + x < 2147483648" by simp
  then have "sint (of_nat (triangular n + x) :: int32) = int (triangular n + x)"
    by (rule sint_of_nat32)
  then show ?thesis
    by (simp only: getIndex_def packed_state_def PackedIndex.select_convs)
qed

lemma packed_state_computeIndex:
  assumes "x \<le> n" "n \<le> 46340"
  shows "getIndex (packed_state n x)
          = computeIndex (getX (packed_state n x)) (getY (packed_state n x))"
proof -
  have xy: "(of_nat x :: int32) + of_nat (n - x) = of_nat n"
    using assms(1) by (simp flip: of_nat_add)
  show ?thesis
    using assms(2)
    by (simp add: getIndex_def getX_def getY_def packed_state_def computeIndex_def xy
        computeOffset_of_nat)
qed

section \<open>Enumeration of the packed sequence\<close>

text \<open>
  Claim C1, as amended: for every order \<open>N\<close> from 0 to 65534, the states that stand after
  \<open>k = 0, \<dots>, (N+1)(N+2)/2 - 1\<close> increments from the origin visit every pair \<open>(x, y)\<close> of
  non-negative integers with \<open>x + y \<le> N\<close> exactly once, and at each of them \<open>getIndex\<close>
  is the number \<open>k\<close> of increments taken and is \<open>(x+y)(x+y+1)/2 + x\<close>; at each visited
  pair with \<open>x + y \<le> 46340\<close> it is also \<open>computeIndex\<close> of the pair.
\<close>

theorem packed_enumeration_bounded:
  fixes N :: nat
  assumes "N \<le> 65534"
  shows "(\<forall>x y. x + y \<le> N \<longrightarrow>
            (\<exists>!k. k < (N + 1) * (N + 2) div 2
                \<and> sint (getX ((operator_increment ^^ k) PackedIndex_default)) = int x
                \<and> sint (getY ((operator_increment ^^ k) PackedIndex_default)) = int y))
       \<and> (\<forall>k < (N + 1) * (N + 2) div 2.
            \<exists>x y. x + y \<le> N
              \<and> sint (getX ((operator_increment ^^ k) PackedIndex_default)) = int x
              \<and> sint (getY ((operator_increment ^^ k) PackedIndex_default)) = int y
              \<and> sint (getIndex ((operator_increment ^^ k) PackedIndex_default)) = int k
              \<and> k = (x + y) * (x + y + 1) div 2 + x
              \<and> (x + y \<le> 46340 \<longrightarrow>
                   getIndex ((operator_increment ^^ k) PackedIndex_default)
                     = computeIndex (getX ((operator_increment ^^ k) PackedIndex_default))
                                    (getY ((operator_increment ^^ k) PackedIndex_default))))"
proof -
  let ?visit = "\<lambda>k. (operator_increment ^^ k) PackedIndex_default"
  have decomp: "\<exists>n x. n \<le> N \<and> x \<le> n \<and> k = triangular n + x \<and> ?visit k = packed_state n x"
    if "k < (N + 1) * (N + 2) div 2" for k
  proof -
    from that have "k < triangular (Suc N)" by (simp add: triangular_Suc_eq)
    then obtain n x where nx: "n \<le> N" "x \<le> n" "k = triangular n + x"
      using triangular_decompose by blast
    then have "n < 2147483648" using assms by simp
    then have "?visit k = packed_state n x" using nx by (simp add: increments_from_origin)
    then show ?thesis using nx by blast
  qed
  have visited: "\<exists>x y. x + y \<le> N
        \<and> sint (getX (?visit k)) = int x \<and> sint (getY (?visit k)) = int y
        \<and> sint (getIndex (?visit k)) = int k
        \<and> k = (x + y) * (x + y + 1) div 2 + x
        \<and> (x + y \<le> 46340 \<longrightarrow>
             getIndex (?visit k) = computeIndex (getX (?visit k)) (getY (?visit k)))"
    if "k < (N + 1) * (N + 2) div 2" for k
  proof -
    from decomp [OF that] obtain n x
      where nx: "n \<le> N" "x \<le> n" "k = triangular n + x" "?visit k = packed_state n x"
      by blast
    have n: "n \<le> 65534" "n < 2147483648" using nx(1) assms by simp_all
    have sum: "x + (n - x) = n" using nx(2) by simp
    have "x + (n - x) \<le> N" using nx by simp
    moreover have "k = (x + (n - x)) * (x + (n - x) + 1) div 2 + x"
      using nx by (simp add: triangular_def)
    moreover have "sint (getIndex (?visit k)) = int k"
      unfolding nx(4) using packed_state_index [OF nx(2) n(1)] nx(3) by simp
    moreover have "sint (getX (?visit k)) = int x" "sint (getY (?visit k)) = int (n - x)"
      unfolding nx(4) by (rule packed_state_position [OF nx(2) n(2)])+
    moreover have "getIndex (?visit k) = computeIndex (getX (?visit k)) (getY (?visit k))"
      if "x + (n - x) \<le> 46340"
      unfolding nx(4) using that sum by (intro packed_state_computeIndex [OF nx(2)]) simp
    ultimately show ?thesis
      by (intro exI [of _ x] exI [of _ "n - x"]) blast
  qed
  have once: "\<exists>!k. k < (N + 1) * (N + 2) div 2
        \<and> sint (getX (?visit k)) = int x \<and> sint (getY (?visit k)) = int y"
    if "x + y \<le> N" for x y
  proof (rule ex1I [of _ "triangular (x + y) + x"])
    have n: "x + y < 2147483648" using that assms by simp
    have "?visit (triangular (x + y) + x) = packed_state (x + y) x"
      using n by (simp add: increments_from_origin)
    moreover have "triangular (x + y) + x < (N + 1) * (N + 2) div 2"
      using triangular_row_bound [of x "x + y" N] that by (simp add: triangular_Suc_eq)
    ultimately show "triangular (x + y) + x < (N + 1) * (N + 2) div 2
        \<and> sint (getX (?visit (triangular (x + y) + x))) = int x
        \<and> sint (getY (?visit (triangular (x + y) + x))) = int y"
      using packed_state_position(1,2) [of x "x + y"] n by simp
  next
    fix k
    assume k: "k < (N + 1) * (N + 2) div 2
        \<and> sint (getX (?visit k)) = int x \<and> sint (getY (?visit k)) = int y"
    then obtain n x'
      where nx: "n \<le> N" "x' \<le> n" "k = triangular n + x'" "?visit k = packed_state n x'"
      using decomp by blast
    have n: "n < 2147483648" using nx(1) assms by simp
    have "sint (getX (?visit k)) = int x'" "sint (getY (?visit k)) = int (n - x')"
      unfolding nx(4) by (rule packed_state_position(1,2) [OF nx(2) n])+
    moreover from k have "sint (getX (?visit k)) = int x" "sint (getY (?visit k)) = int y"
      by blast+
    ultimately have "int x' = int x" "int (n - x') = int y" by (simp_all only:)
    then have "x' = x" "n - x' = y" by (simp_all only: of_nat_eq_iff)
    then have "n = x + y" using nx(2) by simp
    then show "k = triangular (x + y) + x" using nx(3) \<open>x' = x\<close> by simp
  qed
  show ?thesis using once visited by blast
qed

text \<open>
  Claim C1, witness: order 2 and the state after 4 increments, which stands at the pair
  \<open>(1, 1)\<close> with flat index 4, the value of \<open>computeIndex\<close> there.
\<close>

theorem packed_enumeration_bounded_witness:
  "(2::nat) \<le> 65534 \<and> (4::nat) < (2 + 1) * (2 + 2) div 2
   \<and> (\<exists>x y. x + y \<le> (2::nat) \<and> x + y \<le> 46340
        \<and> sint (getX ((operator_increment ^^ 4) PackedIndex_default)) = int x
        \<and> sint (getY ((operator_increment ^^ 4) PackedIndex_default)) = int y
        \<and> sint (getIndex ((operator_increment ^^ 4) PackedIndex_default)) = 4
        \<and> (4::nat) = (x + y) * (x + y + 1) div 2 + x
        \<and> getIndex ((operator_increment ^^ 4) PackedIndex_default)
            = computeIndex (getX ((operator_increment ^^ 4) PackedIndex_default))
                           (getY ((operator_increment ^^ 4) PackedIndex_default)))
   \<and> getX ((operator_increment ^^ 4) PackedIndex_default) = 1
   \<and> getY ((operator_increment ^^ 4) PackedIndex_default) = 1
   \<and> computeIndex 1 1 = 4"
proof -
  have h: "(2::nat) \<le> 65534" by simp
  have k: "(4::nat) < (2 + 1) * (2 + 2) div 2" by simp
  from packed_enumeration_bounded [OF h] k
  obtain x y where xy: "x + y \<le> (2::nat)"
      "sint (getX ((operator_increment ^^ 4) PackedIndex_default)) = int x"
      "sint (getY ((operator_increment ^^ 4) PackedIndex_default)) = int y"
      "sint (getIndex ((operator_increment ^^ 4) PackedIndex_default)) = int 4"
      "(4::nat) = (x + y) * (x + y + 1) div 2 + x"
      "x + y \<le> 46340 \<longrightarrow>
         getIndex ((operator_increment ^^ 4) PackedIndex_default)
           = computeIndex (getX ((operator_increment ^^ 4) PackedIndex_default))
                          (getY ((operator_increment ^^ 4) PackedIndex_default))"
    by blast
  have small: "x + y \<le> 46340" using xy(1) by simp
  with xy(6) have c: "getIndex ((operator_increment ^^ 4) PackedIndex_default)
           = computeIndex (getX ((operator_increment ^^ 4) PackedIndex_default))
                          (getY ((operator_increment ^^ 4) PackedIndex_default))"
    by blast
  have "sint (getIndex ((operator_increment ^^ 4) PackedIndex_default)) = 4"
    using xy(4) by simp
  with xy small c have ex: "\<exists>x y. x + y \<le> (2::nat) \<and> x + y \<le> 46340
        \<and> sint (getX ((operator_increment ^^ 4) PackedIndex_default)) = int x
        \<and> sint (getY ((operator_increment ^^ 4) PackedIndex_default)) = int y
        \<and> sint (getIndex ((operator_increment ^^ 4) PackedIndex_default)) = 4
        \<and> (4::nat) = (x + y) * (x + y + 1) div 2 + x
        \<and> getIndex ((operator_increment ^^ 4) PackedIndex_default)
            = computeIndex (getX ((operator_increment ^^ 4) PackedIndex_default))
                           (getY ((operator_increment ^^ 4) PackedIndex_default))"
    by blast
  have s: "(operator_increment ^^ 4) PackedIndex_default
      = \<lparr>m_n = 2, m_i = 4, m_x = 1, m_y = 1\<rparr>"
    by (simp add: eval_nat_numeral operator_increment_def PackedIndex_default_def Let_def
        word_sless_alt)
  have "getX ((operator_increment ^^ 4) PackedIndex_default) = 1"
    "getY ((operator_increment ^^ 4) PackedIndex_default) = 1"
    unfolding s by (simp_all add: getX_def getY_def)
  moreover have "computeIndex 1 1 = 4"
    by (simp add: computeIndex_def computeOffset_def int_div_def)
  ultimately show ?thesis using h k ex by blast
qed

text \<open>
  Claim C1, as stated for every order, fails twice. At order 46341 the state after 1073767311
  increments is among the first \<open>(46341+1)(46341+2)/2\<close>, stands at the pair \<open>(0, 46341)\<close>
  and has the flat index 1073767311, but \<open>computeIndex\<close> of that pair is \<open>-1073716337\<close>,
  because the product \<open>46341 * 46342\<close> in \<open>computeOffset\<close> exceeds the largest \<open>int\<close>.
  At order 65535 the state after \<open>2 ^ 31\<close> increments is among the first
  \<open>(65535+1)(65535+2)/2\<close> and stands at the pair \<open>(32768, 32767)\<close>, but its flat index has
  wrapped around to the least \<open>int\<close> and is not the number of increments.
\<close>

theorem packed_enumeration_counterexample:
  "(1073767311::nat) < (46341 + 1) * (46341 + 2) div 2
   \<and> sint (getX ((operator_increment ^^ 1073767311) PackedIndex_default)) = 0
   \<and> sint (getY ((operator_increment ^^ 1073767311) PackedIndex_default)) = 46341
   \<and> sint (getIndex ((operator_increment ^^ 1073767311) PackedIndex_default)) = 1073767311
   \<and> sint (computeIndex (getX ((operator_increment ^^ 1073767311) PackedIndex_default))
                         (getY ((operator_increment ^^ 1073767311) PackedIndex_default)))
       = - 1073716337
   \<and> getIndex ((operator_increment ^^ 1073767311) PackedIndex_default)
       \<noteq> computeIndex (getX ((operator_increment ^^ 1073767311) PackedIndex_default))
                       (getY ((operator_increment ^^ 1073767311) PackedIndex_default))
   \<and> (2147483648::nat) < (65535 + 1) * (65535 + 2) div 2
   \<and> sint (getX ((operator_increment ^^ 2147483648) PackedIndex_default)) = 32768
   \<and> sint (getY ((operator_increment ^^ 2147483648) PackedIndex_default)) = 32767
   \<and> sint (getIndex ((operator_increment ^^ 2147483648) PackedIndex_default)) = - 2147483648
   \<and> sint (getIndex ((operator_increment ^^ 2147483648) PackedIndex_default))
       \<noteq> int 2147483648"
proof -
  have t: "triangular 46341 = 1073767311" by (simp add: triangular_def)
  then have a: "(operator_increment ^^ 1073767311) PackedIndex_default = packed_state 46341 0"
    using increments_from_origin [of 46341 0] by simp
  have u: "triangular 65535 = 2147450880" by (simp add: triangular_def)
  then have b: "(operator_increment ^^ 2147483648) PackedIndex_default
      = packed_state 65535 32768"
    using increments_from_origin [of 65535 32768] by simp
  show ?thesis
    unfolding a b
    by (simp add: packed_state_def t u getX_def getY_def getIndex_def
        computeIndex_def computeOffset_def int_div_def)
qed

section \<open>The increment at the two ends of a row\<close>

text \<open>
  Claim C7, as amended: for every \<open>n\<close> below the largest \<open>int\<close>, the increment of a
  PackedIndex that stands at the pair \<open>(x = n, y = 0)\<close>, the last pair of order \<open>n\<close>, resets
  \<open>x\<close> to 0, sets \<open>y\<close> to \<open>n + 1\<close> and increments the order by one.
\<close>

theorem increment_at_y0:
  assumes "getY p = 0" "sint (getOrder p) < 2147483647"
  shows "getX (operator_increment p) = 0
       \<and> getY (operator_increment p) = getOrder p + 1
       \<and> getOrder (operator_increment p) = getOrder p + 1
       \<and> sint (getOrder (operator_increment p)) = sint (getOrder p) + 1
       \<and> getIndex (operator_increment p) = getIndex p + 1"
proof -
  have "sint (getOrder p + 1) = sint (getOrder p) + 1"
    using assms(2) sint_ge [of "getOrder p"]
    by (simp add: sint_word_ariths signed_take_bit_int_eq_self)
  then show ?thesis
    using assms(1)
    by (simp add: operator_increment_def getX_def getY_def getOrder_def getIndex_def Let_def
        word_sless_alt)
qed

text \<open>Claim C7, witness: the increment at the pair \<open>(3, 0)\<close> leads to \<open>(0, 4)\<close>.\<close>

theorem increment_at_y0_witness:
  "getY (PackedIndex_xy 3 0) = 0 \<and> sint (getOrder (PackedIndex_xy 3 0)) < 2147483647
   \<and> getX (PackedIndex_xy 3 0) = 3
   \<and> getX (operator_increment (PackedIndex_xy 3 0)) = 0
   \<and> getY (operator_increment (PackedIndex_xy 3 0)) = 4
   \<and> getOrder (operator_increment (PackedIndex_xy 3 0)) = 4
   \<and> getIndex (operator_increment (PackedIndex_xy 3 0)) = 10"
proof -
  have h: "getY (PackedIndex_xy 3 0) = 0" "sint (getOrder (PackedIndex_xy 3 0)) < 2147483647"
    by (simp_all add: PackedIndex_xy_def getY_def getOrder_def)
  show ?thesis
    using h increment_at_y0 [OF h]
    by (simp add: PackedIndex_xy_def getX_def getOrder_def getIndex_def computeOffset_def
        int_div_def)
qed

text \<open>
  Claim C7, as stated, fails at \<open>n = 2\<close>: the increment at the pair \<open>(x = 0, y = 2)\<close> leads
  to \<open>(1, 1)\<close>, so \<open>y\<close> is not reset to 0 and the order stays 2.
\<close>

theorem increment_at_x0_counterexample:
  "getX (PackedIndex_xy 0 2) = 0 \<and> getY (PackedIndex_xy 0 2) = 2
   \<and> getOrder (PackedIndex_xy 0 2) = 2
   \<and> getX (operator_increment (PackedIndex_xy 0 2)) = 1
   \<and> getY (operator_increment (PackedIndex_xy 0 2)) = 1
   \<and> getY (operator_increment (PackedIndex_xy 0 2)) \<noteq> 0
   \<and> getOrder (operator_increment (PackedIndex_xy 0 2)) = 2
   \<and> getOrder (operator_increment (PackedIndex_xy 0 2)) \<noteq> getOrder (PackedIndex_xy 0 2) + 1"
  by (simp add: operator_increment_def PackedIndex_xy_def getX_def getY_def getOrder_def
      Let_def word_sless_alt)

text \<open>
  At every other pair of the row, where \<open>y\<close> is positive, the increment moves one pair
  along the row: \<open>x\<close> grows by one, \<open>y\<close> shrinks by one and the order stays.
\<close>

lemma increment_inside_row:
  assumes "0 < sint (getY p)"
  shows "getX (operator_increment p) = getX p + 1
       \<and> getY (operator_increment p) = getY p - 1
       \<and> getOrder (operator_increment p) = getOrder p
       \<and> getIndex (operator_increment p) = getIndex p + 1"
proof -
  have "sint (getY p - 1) = sint (getY p) - 1"
    using assms sint_lt [of "getY p"]
    by (simp add: sint_word_ariths signed_take_bit_int_eq_self)
  then have "\<not> getY p - 1 <s 0" using assms by (simp add: word_sless_alt)
  then show ?thesis
    by (simp add: operator_increment_def getX_def getY_def getOrder_def getIndex_def Let_def)
qed

section \<open>The invariant of the reachable states\<close>

lemma packed_state_default: "PackedIndex_default = packed_state 0 0"
  by (simp add: packed_state_def PackedIndex_default_def triangular_def)

lemma packed_state_xy:
  assumes "0 \<le> sint x" "0 \<le> sint y" "sint x + sint y \<le> 46340"
  shows "PackedIndex_xy x y = packed_state (nat (sint x) + nat (sint y)) (nat (sint x))"
proof -
  define a b where "a = nat (sint x)" and "b = nat (sint y)"
  have x: "x = of_nat a" and y: "y = of_nat b"
    using assms(1,2) by (simp_all add: a_def b_def of_nat_nat_sint [symmetric])
  have "a + b \<le> 46340" using assms by (simp add: a_def b_def)
  then have "computeOffset (of_nat (a + b)) = of_nat (triangular (a + b))"
    by (rule computeOffset_of_nat)
  then show ?thesis
    unfolding a_def [symmetric] b_def [symmetric]
    by (simp add: PackedIndex_xy_def packed_state_def x y)
qed

text \<open>By rule induction, every state reachable within the bound stands at a pair.\<close>

lemma reachable_upto_packed_state:
  assumes "N \<le> 46340" "reachable_upto N p"
  shows "\<exists>n x. x \<le> n \<and> int n \<le> N \<and> p = packed_state n x"
  using assms(2)
proof (induction rule: reachable_upto.induct)
  case from_default
  then show ?case using packed_state_default by (intro exI [of _ 0]) simp
next
  case (from_xy x y)
  then have "PackedIndex_xy x y = packed_state (nat (sint x) + nat (sint y)) (nat (sint x))"
    using assms(1) by (intro packed_state_xy) simp_all
  moreover have "int (nat (sint x) + nat (sint y)) \<le> N" using from_xy by simp
  ultimately show ?case
    by (intro exI [of _ "nat (sint x) + nat (sint y)"] exI [of _ "nat (sint x)"]) simp
next
  case (advance p)
  then obtain n x where nx: "x \<le> n" "int n \<le> N" "p = packed_state n x" by blast
  have n: "n \<le> 46340" using nx(2) assms(1) by simp
  show ?case
  proof (cases "x = n")
    case True
    have "operator_increment p = packed_state (Suc n) 0"
      unfolding nx(3) True using n by (intro increment_end_of_row) simp
    moreover have "sint (getOrder (packed_state (Suc n) 0)) = int (Suc n)"
      using n by (simp add: getOrder_def packed_state_def sint_of_nat32 del: of_nat_Suc)
    ultimately have "int (Suc n) \<le> N" using advance.hyps(2) by simp
    then show ?thesis using \<open>operator_increment p = packed_state (Suc n) 0\<close>
      by (intro exI [of _ "Suc n"] exI [of _ 0]) simp
  next
    case False
    then have "operator_increment p = packed_state n (Suc x)"
      unfolding nx(3) using nx(1) n by (intro increment_in_row) simp_all
    then show ?thesis using nx False
      by (intro exI [of _ n] exI [of _ "Suc x"]) simp
  qed
qed

lemma increment_index: "getIndex (operator_increment p) = getIndex p + 1"
  by (simp add: operator_increment_def getIndex_def Let_def)

text \<open>The order is the sum of the pair at every reachable state, by rule induction.\<close>

lemma increment_keeps_order_sum:
  assumes "getOrder p = getX p + getY p"
  shows "getOrder (operator_increment p)
          = getX (operator_increment p) + getY (operator_increment p)"
  using assms by (simp add: operator_increment_def getOrder_def getX_def getY_def Let_def)

lemma reachable_upto_order_sum:
  assumes "reachable_upto N p"
  shows "getOrder p = getX p + getY p"
  using assms
proof (induction rule: reachable_upto.induct)
  case from_default
  show ?case by (simp add: PackedIndex_default_def getOrder_def getX_def getY_def)
next
  case (from_xy x y)
  show ?case by (simp add: PackedIndex_xy_def getOrder_def getX_def getY_def)
next
  case (advance p)
  then show ?case by (intro increment_keeps_order_sum)
qed

lemma increment_position_end:
  assumes "getY p = 0"
  shows "getOrder (operator_increment p) = getOrder p + 1"
    and "getX (operator_increment p) = 0"
    and "getY (operator_increment p) = getOrder p + 1"
  using assms
  by (simp_all add: operator_increment_def getX_def getY_def getOrder_def Let_def word_sless_alt)

text \<open>Below the largest order, every reachable state stands at a pair.\<close>

lemma reachable_upto_position:
  assumes "N \<le> 2147483646" "reachable_upto N p"
  shows "\<exists>n x. x \<le> n \<and> int n \<le> N
          \<and> getOrder p = of_nat n \<and> getX p = of_nat x \<and> getY p = of_nat (n - x)"
  using assms(2)
proof (induction rule: reachable_upto.induct)
  case from_default
  then show ?case
    by (intro exI [of _ 0]) (simp add: PackedIndex_default_def getOrder_def getX_def getY_def)
next
  case (from_xy x y)
  define a b where "a = nat (sint x)" and "b = nat (sint y)"
  have x: "x = of_nat a" and y: "y = of_nat b"
    using from_xy(1,2) by (simp_all add: a_def b_def of_nat_nat_sint [symmetric])
  have "int (a + b) \<le> N" using from_xy by (simp add: a_def b_def)
  then show ?case
    by (intro exI [of _ "a + b"] exI [of _ a])
      (simp add: PackedIndex_xy_def getOrder_def getX_def getY_def x y)
next
  case (advance p)
  then obtain n x where nx: "x \<le> n" "int n \<le> N"
    and p: "getOrder p = of_nat n" "getX p = of_nat x" "getY p = of_nat (n - x)" by blast
  have n: "n < 2147483647" using nx(2) assms(1) by simp
  show ?case
  proof (cases "x = n")
    case True
    then have y0: "getY p = 0" using p(3) by simp
    note e = increment_position_end [OF y0]
    have "sint (of_nat n :: int32) = int n" using n by (intro sint_of_nat32) simp
    then have "sint (of_nat n + 1 :: int32) = int n + 1"
      using n sint_plus_one [of "of_nat n"] by simp
    moreover have "sint (of_nat n + 1 :: int32) \<le> N"
      using advance.hyps(2) unfolding e(1) p(1) .
    ultimately have "int (Suc n) \<le> N" by simp
    then show ?thesis using e p(1)
      by (intro exI [of _ "Suc n"] exI [of _ 0]) simp
  next
    case False
    then have "x < n" using nx(1) by simp
    then have "sint (of_nat (n - x) :: int32) = int (n - x)" using n by (intro sint_of_nat32) simp
    then have "0 < sint (getY p)" using \<open>x < n\<close> p(3) by simp
    note e = increment_inside_row [OF this]
    have "(of_nat (n - x) :: int32) - 1 = of_nat (n - Suc x)"
      using \<open>x < n\<close> by simp
    then show ?thesis using e p nx \<open>x < n\<close>
      by (intro exI [of _ n] exI [of _ "Suc x"]) (simp del: of_nat_diff)
  qed
qed

lemma reachable_upto_signed:
  assumes "N \<le> 2147483646" "reachable_upto N p"
  shows "0 \<le> sint (getX p)" and "0 \<le> sint (getY p)"
    and "sint (getOrder p) = sint (getX p) + sint (getY p)"
proof -
  from reachable_upto_position [OF assms] obtain n x where nx: "x \<le> n" "int n \<le> N"
    and p: "getOrder p = of_nat n" "getX p = of_nat x" "getY p = of_nat (n - x)" by blast
  have n: "n < 2147483648" using nx(2) assms(1) by simp
  have sx: "sint (getX p) = int x" unfolding p using nx(1) n by (intro sint_of_nat32) simp
  have sy: "sint (getY p) = int (n - x)" unfolding p using n by (intro sint_of_nat32) simp
  have sn: "sint (getOrder p) = int n" unfolding p using n by (rule sint_of_nat32)
  show "0 \<le> sint (getX p)" "0 \<le> sint (getY p)" by (simp_all only: sx sy of_nat_0_le_iff)
  show "sint (getOrder p) = sint (getX p) + sint (getY p)"
    unfolding sx sy sn using nx(1) by simp
qed

lemma reachable_upto_computeIndex:
  assumes "N \<le> 46340" "reachable_upto N p"
  shows "getIndex p = computeIndex (getX p) (getY p)"
    and "sint (getIndex p)
           = (sint (getX p) + sint (getY p)) * (sint (getX p) + sint (getY p) + 1) div 2
             + sint (getX p)"
proof -
  from reachable_upto_packed_state [OF assms] obtain n x
    where nx: "x \<le> n" "int n \<le> N" "p = packed_state n x" by blast
  have n: "n \<le> 46340" "n \<le> 65534" "n < 2147483648" using nx(2) assms(1) by simp_all
  show "getIndex p = computeIndex (getX p) (getY p)"
    unfolding nx(3) by (rule packed_state_computeIndex [OF nx(1) n(1)])
  note f = packed_state_position [OF nx(1) n(3)] packed_state_index [OF nx(1) n(2)]
  have sum: "int x + int (n - x) = int n" using nx(1) by simp
  have "int (triangular n + x) = int n * (int n + 1) div 2 + int x"
    by (simp add: triangular_def zdiv_int algebra_simps)
  then show "sint (getIndex p)
           = (sint (getX p) + sint (getY p)) * (sint (getX p) + sint (getY p) + 1) div 2
             + sint (getX p)"
    unfolding nx(3) by (simp only: f sum)
qed

text \<open>
  Claim C10, as amended: every state reachable from the default constructor, from the
  constructor at non-negative \<open>x\<close> and \<open>y\<close>, or by any sequence of increments satisfies
  \<open>getOrder = getX + getY\<close>, and each increment increases \<open>getIndex\<close> by exactly one, both
  in the arithmetic of \<open>int\<close>; the increase is by one as a number whenever \<open>getIndex\<close> is
  below the largest \<open>int\<close>. While the order at construction and along the increments stays
  at most 46340, the state also satisfies \<open>getIndex = computeIndex getX getY\<close>. While the
  order stays below the largest \<open>int\<close>, \<open>x\<close> and \<open>y\<close> are non-negative and add up to the
  order as numbers.
\<close>

theorem reachable_invariant_bounded:
  assumes "reachable_upto N p"
  shows "getOrder p = getX p + getY p
       \<and> getIndex (operator_increment p) = getIndex p + 1
       \<and> (sint (getIndex p) < 2147483647
            \<longrightarrow> sint (getIndex (operator_increment p)) = sint (getIndex p) + 1)
       \<and> (N \<le> 2147483646
            \<longrightarrow> 0 \<le> sint (getX p) \<and> 0 \<le> sint (getY p)
              \<and> sint (getOrder p) = sint (getX p) + sint (getY p))
       \<and> (N \<le> 46340
            \<longrightarrow> getIndex p = computeIndex (getX p) (getY p)
              \<and> sint (getIndex p)
                  = (sint (getX p) + sint (getY p)) * (sint (getX p) + sint (getY p) + 1) div 2
                    + sint (getX p))"
proof -
  have "getOrder p = getX p + getY p" using assms by (rule reachable_upto_order_sum)
  moreover have "getIndex (operator_increment p) = getIndex p + 1" by (rule increment_index)
  moreover have "sint (getIndex (operator_increment p)) = sint (getIndex p) + 1"
    if "sint (getIndex p) < 2147483647"
    unfolding increment_index using that by (rule sint_plus_one)
  moreover have "0 \<le> sint (getX p) \<and> 0 \<le> sint (getY p)
      \<and> sint (getOrder p) = sint (getX p) + sint (getY p)" if "N \<le> 2147483646"
    using reachable_upto_signed [OF that assms] by blast
  moreover have "getIndex p = computeIndex (getX p) (getY p)
      \<and> sint (getIndex p)
          = (sint (getX p) + sint (getY p)) * (sint (getX p) + sint (getY p) + 1) div 2
            + sint (getX p)" if "N \<le> 46340"
    using reachable_upto_computeIndex [OF that assms] by blast
  ultimately show ?thesis by blast
qed

text \<open>
  Claim C10, witness: with the bound 5, the state after one increment from the constructor
  at \<open>(2, 0)\<close> stands at \<open>(0, 3)\<close> with flat index 6, and the next increment gives 7.
\<close>

theorem reachable_invariant_bounded_witness:
  "reachable_upto 5 (operator_increment (PackedIndex_xy 2 0))
   \<and> sint (getIndex (operator_increment (PackedIndex_xy 2 0))) < 2147483647
   \<and> (5::int) \<le> 2147483646 \<and> (5::int) \<le> 46340
   \<and> getOrder (operator_increment (PackedIndex_xy 2 0))
       = getX (operator_increment (PackedIndex_xy 2 0))
         + getY (operator_increment (PackedIndex_xy 2 0))
   \<and> getIndex (operator_increment (PackedIndex_xy 2 0))
       = computeIndex (getX (operator_increment (PackedIndex_xy 2 0)))
                      (getY (operator_increment (PackedIndex_xy 2 0)))
   \<and> getOrder (operator_increment (PackedIndex_xy 2 0)) = 3
   \<and> getX (operator_increment (PackedIndex_xy 2 0)) = 0
   \<and> getY (operator_increment (PackedIndex_xy 2 0)) = 3
   \<and> getIndex (operator_increment (PackedIndex_xy 2 0)) = 6
   \<and> computeIndex 0 3 = 6
   \<and> sint (getIndex (operator_increment (operator_increment (PackedIndex_xy 2 0)))) = 7"
proof -
  have s: "operator_increment (PackedIndex_xy 2 0) = \<lparr>m_n = 3, m_i = 6, m_x = 0, m_y = 3\<rparr>"
    by (simp add: operator_increment_def PackedIndex_xy_def computeOffset_def int_div_def
        Let_def word_sless_alt)
  have "reachable_upto 5 (PackedIndex_xy 2 0)"
    by (rule reachable_upto.from_xy) simp_all
  then have r: "reachable_upto 5 (operator_increment (PackedIndex_xy 2 0))"
    by (rule reachable_upto.advance) (simp add: s getOrder_def)
  have i: "sint (getIndex (operator_increment (PackedIndex_xy 2 0))) < 2147483647"
    by (simp add: s getIndex_def)
  have b: "(5::int) \<le> 2147483646" "(5::int) \<le> 46340" by simp_all
  from reachable_invariant_bounded [OF r] i b
  have "getOrder (operator_increment (PackedIndex_xy 2 0))
       = getX (operator_increment (PackedIndex_xy 2 0))
         + getY (operator_increment (PackedIndex_xy 2 0))"
    and "getIndex (operator_increment (PackedIndex_xy 2 0))
       = computeIndex (getX (operator_increment (PackedIndex_xy 2 0)))
                      (getY (operator_increment (PackedIndex_xy 2 0)))"
    and "sint (getIndex (operator_increment (operator_increment (PackedIndex_xy 2 0))))
       = sint (getIndex (operator_increment (PackedIndex_xy 2 0))) + 1"
    by blast+
  moreover have "getOrder (operator_increment (PackedIndex_xy 2 0)) = 3"
    "getX (operator_increment (PackedIndex_xy 2 0)) = 0"
    "getY (operator_increment (PackedIndex_xy 2 0)) = 3"
    "getIndex (operator_increment (PackedIndex_xy 2 0)) = 6"
    unfolding s by (simp_all add: getOrder_def getX_def getY_def getIndex_def)
  moreover have "computeIndex 0 3 = 6"
    by (simp add: computeIndex_def computeOffset_def int_div_def)
  ultimately show ?thesis using r i b by simp
qed

text \<open>Every state of the sequence from the origin is reachable.\<close>

lemma reachable_from_origin:
  "reachable_upto 2147483647 ((operator_increment ^^ k) PackedIndex_default)"
proof (induction k)
  case 0
  show ?case by (simp add: reachable_upto.from_default)
next
  case (Suc k)
  have "sint (getOrder (operator_increment ((operator_increment ^^ k) PackedIndex_default)))
      \<le> 2147483647"
    using sint_lt [of "getOrder (operator_increment ((operator_increment ^^ k) PackedIndex_default))"]
    by simp
  with Suc show ?case by (simp add: reachable_upto.advance)
qed

text \<open>
  Claim C10, as stated, fails twice. One increment after the constructor at \<open>(46340, 0)\<close>
  the state stands at \<open>(0, 46341)\<close> with flat index 1073767311, but \<open>computeIndex\<close> of
  that pair is \<open>-1073716337\<close>. And the state after 2147483647 increments from the origin
  has the largest \<open>int\<close> as its flat index, which the next increment turns into the least
  \<open>int\<close>, not into a number larger by one.
\<close>

theorem reachable_invariant_counterexample:
  "reachable_upto 2147483647 (operator_increment (PackedIndex_xy 46340 0))
   \<and> sint (getIndex (operator_increment (PackedIndex_xy 46340 0))) = 1073767311
   \<and> sint (computeIndex (getX (operator_increment (PackedIndex_xy 46340 0)))
                         (getY (operator_increment (PackedIndex_xy 46340 0)))) = - 1073716337
   \<and> getIndex (operator_increment (PackedIndex_xy 46340 0))
       \<noteq> computeIndex (getX (operator_increment (PackedIndex_xy 46340 0)))
                       (getY (operator_increment (PackedIndex_xy 46340 0)))
   \<and> reachable_upto 2147483647 ((operator_increment ^^ 2147483647) PackedIndex_default)
   \<and> sint (getIndex ((operator_increment ^^ 2147483647) PackedIndex_default)) = 2147483647
   \<and> sint (getIndex (operator_increment
              ((operator_increment ^^ 2147483647) PackedIndex_default))) = - 2147483648"
proof -
  have "reachable_upto 2147483647 (PackedIndex_xy 46340 0)"
    by (rule reachable_upto.from_xy) simp_all
  then have "reachable_upto 2147483647 (operator_increment (PackedIndex_xy 46340 0))"
    by (rule reachable_upto.advance)
      (use sint_lt [of "getOrder (operator_increment (PackedIndex_xy 46340 0))"] in simp)
  moreover have "operator_increment (PackedIndex_xy 46340 0)
      = \<lparr>m_n = 46341, m_i = 1073767311, m_x = 0, m_y = 46341\<rparr>"
    by (simp add: operator_increment_def PackedIndex_xy_def computeOffset_def int_div_def
        Let_def word_sless_alt)
  moreover have u: "triangular 65535 = 2147450880" by (simp add: triangular_def)
  then have "(operator_increment ^^ 2147483647) PackedIndex_default
      = packed_state 65535 32767"
    using increments_from_origin [of 65535 32767] by simp
  then have i: "getIndex ((operator_increment ^^ 2147483647) PackedIndex_default)
        = 2147483647"
    by (simp add: packed_state_def u getIndex_def)
  have "sint (getIndex ((operator_increment ^^ 2147483647) PackedIndex_default))
        = 2147483647"
    and "sint (getIndex (operator_increment
              ((operator_increment ^^ 2147483647) PackedIndex_default))) = - 2147483648"
    unfolding increment_index i by simp_all
  moreover note reachable_from_origin [of 2147483647]
  ultimately show ?thesis
    by (simp add: getX_def getY_def getIndex_def computeIndex_def computeOffset_def int_div_def)
qed

text \<open>
  From order 65535 on the flat index itself leaves the range of \<open>int\<close>: after \<open>2 ^ 31\<close>
  increments, inside order 65535, it has wrapped around to the least \<open>int\<close>.
\<close>

lemma index_wraps_in_order_65535:
  "sint (getX ((operator_increment ^^ 2147483648) PackedIndex_default)) = 32768
   \<and> sint (getOrder ((operator_increment ^^ 2147483648) PackedIndex_default)) = 65535
   \<and> sint (getIndex ((operator_increment ^^ 2147483648) PackedIndex_default)) = - 2147483648"
proof -
  have t: "triangular 65535 = 2147450880" by (simp add: triangular_def)
  then have "(operator_increment ^^ 2147483648) PackedIndex_default = packed_state 65535 32768"
    using increments_from_origin [of 65535 32768] by simp
  then show ?thesis
    by (simp add: packed_state_def t getX_def getOrder_def getIndex_def)
qed

section \<open>Construction of the evaluator\<close>

text \<open>
  Claim C8: for every order \<open>n \<ge> 0\<close>, the evaluator constructed with \<open>n\<close> has both axis
  workspaces of size \<open>n + 1\<close>, and \<open>getOrder\<close>, the size of the x workspace minus one,
  returns exactly \<open>n\<close>.
\<close>

theorem HermiteEvaluator_new_getOrder:
  assumes "0 \<le> sint n"
  shows "\<exists>ev :: ('a::zero) HermiteEvaluator. HermiteEvaluator_new n = Inr ev
          \<and> int (length (e_xWorkspace ev)) = sint n + 1
          \<and> int (length (e_yWorkspace ev)) = sint n + 1
          \<and> HermiteEvaluator_getOrder ev = getSize (e_xWorkspace ev) - 1
          \<and> HermiteEvaluator_getOrder ev = n"
proof -
  let ?ev = "\<lparr>e_xWorkspace = replicate (nat (sint n) + 1) (0::'a),
              e_yWorkspace = replicate (nat (sint n) + 1) (0::'a)\<rparr>"
  have new: "HermiteEvaluator_new n = Inr ?ev"
    using assms by (simp add: HermiteEvaluator_new_def word_sless_alt)
  have "(of_nat (nat (sint n) + 1) :: int32) - 1 = of_nat (nat (sint n))" by simp
  also have "\<dots> = n" using assms by (rule of_nat_nat_sint [symmetric])
  finally have "HermiteEvaluator_getOrder ?ev = n"
    by (simp add: HermiteEvaluator_getOrder_def getSize_def)
  then show ?thesis
    using new assms by (intro exI [of _ ?ev]) (simp add: HermiteEvaluator_getOrder_def)
qed

text \<open>Claim C8, witness: the evaluator of order 2 has workspaces of size 3.\<close>

theorem HermiteEvaluator_new_getOrder_witness:
  "0 \<le> sint (2 :: int32)
   \<and> (\<exists>ev :: int HermiteEvaluator. HermiteEvaluator_new 2 = Inr ev
        \<and> int (length (e_xWorkspace ev)) = 3 \<and> int (length (e_yWorkspace ev)) = 3
        \<and> HermiteEvaluator_getOrder ev = 2)"
proof -
  have h: "0 \<le> sint (2 :: int32)" by simp
  show ?thesis
    using h HermiteEvaluator_new_getOrder [OF h, where 'a = int] by auto
qed

section \<open>The precondition of fillEvaluation\<close>

text \<open>
  Claim C9: a call of \<open>fillEvaluation\<close> with a target whose length differs from the packed
  size \<open>(order+1)(order+2)/2\<close> of the evaluator's order fails with a precondition failure;
  the failure carries no target, so nothing is written: the target is neither truncated nor
  partly filled.
\<close>

theorem fillEvaluation_wrong_length:
  assumes "int (length target) \<noteq> packedSize (sint (HermiteEvaluator_getOrder ev))"
  shows "fillEvaluation h ev target x y = Inl PreconditionFailure"
  using assms by (simp add: fillEvaluation_def)

text \<open>Claim C9, witness: a target of length 5 for an evaluator of order 2.\<close>

theorem fillEvaluation_wrong_length_witness:
  "int (length [7, 7, 7, 7, 7 :: int])
     \<noteq> packedSize (sint (HermiteEvaluator_getOrder
          \<lparr>e_xWorkspace = [0, 0, 0 :: int], e_yWorkspace = [0, 0, 0]\<rparr>))
   \<and> fillEvaluation (\<lambda>x k. x ^ k) \<lparr>e_xWorkspace = [0, 0, 0 :: int], e_yWorkspace = [0, 0, 0]\<rparr>
        [7, 7, 7, 7, 7] 2 3 = Inl PreconditionFailure"
proof -
  have h: "int (length [7, 7, 7, 7, 7 :: int])
     \<noteq> packedSize (sint (HermiteEvaluator_getOrder
          \<lparr>e_xWorkspace = [0, 0, 0 :: int], e_yWorkspace = [0, 0, 0]\<rparr>))"
    by (simp add: packedSize_def HermiteEvaluator_getOrder_def getSize_def)
  show ?thesis
    using h fillEvaluation_wrong_length [OF h, of "\<lambda>x k. x ^ k" 2 3] by simp
qed

text \<open>
  With a target of the right length the call succeeds and fills a target of the same length.
\<close>

lemma fillEvaluation_right_length:
  assumes "int (length target) = packedSize (sint (HermiteEvaluator_getOrder ev))"
  shows "\<exists>ev' filled. fillEvaluation h ev target x y = Inr (ev', filled)
          \<and> length filled = length target
          \<and> length (e_xWorkspace ev') = length (e_xWorkspace ev)
          \<and> length (e_yWorkspace ev') = length (e_yWorkspace ev)"
  using assms by (simp add: fillEvaluation_def weaveFill_def Let_def)

text \<open>
  For workspaces of size \<open>N + 1\<close>, every entry that the weave reads for a target of the
  packed size lies inside them.
\<close>

lemma weaveFill_reads_in_range:
  fixes N :: nat
  assumes "length (e_xWorkspace ev) = Suc N" "length (e_yWorkspace ev) = Suc N"
    and "N < 2147483648" and "k < (N + 1) * (N + 2) div 2"
  shows "nat (sint (getX ((operator_increment ^^ k) PackedIndex_default)))
           < length (e_xWorkspace ev)
       \<and> nat (sint (getY ((operator_increment ^^ k) PackedIndex_default)))
           < length (e_yWorkspace ev)"
proof -
  from assms(4) have "k < triangular (Suc N)" by (simp add: triangular_Suc_eq)
  then obtain n x where nx: "n \<le> N" "x \<le> n" "k = triangular n + x"
    using triangular_decompose by blast
  then have n: "n < 2147483648" using assms(3) by simp
  then have st: "(operator_increment ^^ k) PackedIndex_default = packed_state n x"
    using nx by (simp add: increments_from_origin)
  have "sint (of_nat x :: int32) = int x" using nx(2) n by (intro sint_of_nat32) simp
  moreover have "sint (of_nat (n - x) :: int32) = int (n - x)"
    using n by (intro sint_of_nat32) simp
  ultimately show ?thesis
    unfolding st using nx(1,2) assms(1,2)
    by (simp add: getX_def getY_def packed_state_def del: of_nat_diff)
qed

text \<open>
  At order 2, with the powers of the coordinate in place of the one-dimensional functions,
  the six entries follow the pairs \<open>(0,0), (0,1), (1,0), (0,2), (1,1), (2,0)\<close>.
\<close>

lemma fillEvaluation_order_2:
  "fillEvaluation (\<lambda>x k. x ^ k) \<lparr>e_xWorkspace = [0, 0, 0 :: int], e_yWorkspace = [0, 0, 0]\<rparr>
        [7, 7, 7, 7, 7, 7] 2 3
   = Inr (\<lparr>e_xWorkspace = [1, 2, 4], e_yWorkspace = [1, 3, 9]\<rparr>, [1, 3, 2, 9, 6, 4])"
  by (simp add: fillEvaluation_def packedSize_def HermiteEvaluator_getOrder_def getSize_def
      weaveFill_def upt_rec [of 0] upt_rec [of 1] upt_rec [of 2] upt_rec [of 3] upt_rec [of 4]
      upt_rec [of 5] upt_rec [of "Suc _"] eval_nat_numeral operator_increment_def
      PackedIndex_default_def Let_def word_sless_alt getX_def getY_def)

section \<open>Accumulation into the model matrix\<close>

lemma packedSize_mono:
  assumes "0 \<le> M" "M \<le> N"
  shows "packedSize M \<le> packedSize N"
  unfolding packedSize_def
  using assms by (intro zdiv_mono1 mult_mono) simp_all

text \<open>
  Claim C5: for a builder in a fixed state, an order within its capacity and an output of
  shape pixels by \<open>packedSize order\<close>, \<open>addModelMatrix\<close> returns the output with the first
  \<open>packedSize order\<close> columns of the design matrix added to it entry by entry: what the
  output held before is kept in the sum, not overwritten.
\<close>

theorem addModelMatrix_accumulates:
  fixes mb :: "('a::plus) ModelBuilder"
  assumes shaped: "ModelBuilder_shaped mb"
    and order: "0 \<le> sint order" "sint order \<le> sint (b_order mb)"
    and rows: "length output = length (b_x mb)"
    and cols: "\<forall>row \<in> set output. int (length row) = packedSize (sint order)"
  shows "\<exists>result. addModelMatrix mb order output = Inr result
          \<and> length result = length output
          \<and> (\<forall>p < length output.
                int (length (result ! p)) = packedSize (sint order)
                \<and> (\<forall>k < length (output ! p).
                      result ! p ! k = output ! p ! k + getModel mb ! p ! k))"
proof -
  let ?K = "nat (packedSize (sint order))"
  let ?add = "\<lambda>orow mrow. map2 (+) orow (take ?K mrow)"
  let ?result = "map2 ?add output (getModel mb)"
  have run: "addModelMatrix mb order output = Inr ?result"
    using order rows cols by (simp add: addModelMatrix_def word_sless_alt)
  have len: "length (getModel mb) = length output"
    using shaped rows by (simp add: ModelBuilder_shaped_def getModel_def)
  have K: "packedSize (sint order) \<le> packedSize (sint (b_order mb))"
    using order by (rule packedSize_mono)
  have entry: "int (length (?result ! p)) = packedSize (sint order)
      \<and> (\<forall>k < length (output ! p). ?result ! p ! k = output ! p ! k + getModel mb ! p ! k)"
    if p: "p < length output" for p
  proof -
    have o: "int (length (output ! p)) = packedSize (sint order)"
      using cols p by simp
    have "getModel mb ! p \<in> set (b_model mb)"
      using p len by (simp add: getModel_def)
    then have m: "int (length (getModel mb ! p)) = packedSize (sint (b_order mb))"
      using shaped by (simp add: ModelBuilder_shaped_def)
    have lo: "length (output ! p) = ?K" using o by simp
    have lm: "?K \<le> length (getModel mb ! p)" using m K by simp
    have r: "?result ! p = map2 (+) (output ! p) (take ?K (getModel mb ! p))"
      using p len by simp
    have "length (?result ! p) = ?K" unfolding r using lo lm by simp
    moreover have "?result ! p ! k = output ! p ! k + getModel mb ! p ! k"
      if "k < length (output ! p)" for k
      unfolding r using that lo lm by simp
    ultimately show ?thesis using o by simp
  qed
  show ?thesis
    using run len entry by (intro exI [of _ ?result]) simp
qed

text \<open>
  Claim C5, witness: a builder of order 1 over two pixels, and order 0 added into an output
  that holds 10 and 20: the result holds 11 and 24.
\<close>

theorem addModelMatrix_accumulates_witness:
  "ModelBuilder_shaped \<lparr>b_order = 1, b_model = [[1, 2, 3], [4, 5, 6 :: int]],
                         b_x = [0, 1], b_y = [0, 0]\<rparr>
   \<and> 0 \<le> sint (0 :: int32)
   \<and> (\<exists>result. addModelMatrix \<lparr>b_order = 1, b_model = [[1, 2, 3], [4, 5, 6 :: int]],
                                 b_x = [0, 1], b_y = [0, 0]\<rparr> 0 [[10], [20]] = Inr result
        \<and> length result = 2 \<and> result ! 1 ! 0 = 20 + 4)
   \<and> addModelMatrix \<lparr>b_order = 1, b_model = [[1, 2, 3], [4, 5, 6 :: int]],
                      b_x = [0, 1], b_y = [0, 0]\<rparr> 0 [[10], [20]] = Inr [[11], [24]]"
proof -
  let ?mb = "\<lparr>b_order = 1, b_model = [[1, 2, 3], [4, 5, 6 :: int]],
              b_x = [0, 1], b_y = [0, 0]\<rparr>"
  let ?out = "[[10], [20 :: int]]"
  have shaped: "ModelBuilder_shaped ?mb"
    by (simp add: ModelBuilder_shaped_def packedSize_def)
  have order: "0 \<le> sint (0 :: int32)" "sint (0 :: int32) \<le> sint (b_order ?mb)" by simp_all
  have rows: "length ?out = length (b_x ?mb)" by simp
  have cols: "\<forall>row \<in> set ?out. int (length row) = packedSize (sint (0 :: int32))"
    by (simp add: packedSize_def)
  from addModelMatrix_accumulates [OF shaped order rows cols]
  obtain result where r: "addModelMatrix ?mb 0 ?out = Inr result" "length result = length ?out"
    and e: "\<forall>p < length ?out. int (length (result ! p)) = packedSize (sint (0 :: int32))
            \<and> (\<forall>k < length (?out ! p). result ! p ! k = ?out ! p ! k + getModel ?mb ! p ! k)"
    by blast
  from e have "result ! 1 ! 0 = ?out ! 1 ! 0 + getModel ?mb ! 1 ! 0" by simp
  then have "result ! 1 ! 0 = 20 + 4" by (simp add: getModel_def)
  moreover have "addModelMatrix ?mb 0 ?out = Inr [[11], [24]]"
    by (simp add: addModelMatrix_def getModel_def packedSize_def word_sless_alt)
  ultimately show ?thesis using shaped r by simp
qed

end
